theory Spec2Isabelle
  imports Complex_Main "HOL-Library.AList" "HOL-Library.Sublist"
begin

section \<open>JavaScript values\<close>

text \<open>
  The classification function (\<^verbatim>\<open>supabase/functions/classify-waste/index.ts\<close>) works on
  values that come out of \<^verbatim>\<open>JSON.parse\<close>, so the embedding starts with the values of the
  language and the coercions the handler applies to them.

  Conventions of the whole development:
  \<^item> a string is a list of code units below 256 (\<^typ>\<open>string\<close>); text that needs a larger
    code unit is outside the model;
  \<^item> a finite number is an exact rational: the rounding of IEEE doubles, the overflow to
    \<^verbatim>\<open>Infinity\<close> and the sign of zero are not modelled. On integers between 0 and 100 the
    expression \<^verbatim>\<open>Math.floor((c / 100) * 5)\<close> has the same value in both arithmetics;
  \<^item> \<^verbatim>\<open>console.log\<close> and \<^verbatim>\<open>console.error\<close> are left out: they write to the log only.
\<close>

datatype jsnum = NaN | Finite rat | Infinity | Neg_Infinity

datatype jsval =
    JUndefined
  | JNull
  | JBool bool
  | JNumber jsnum
  | JString string
  | JArray "jsval list"
  | JObject "(string \<times> jsval) list"

subsection \<open>Strings\<close>

definition is_white :: "char \<Rightarrow> bool" where
  \<comment> \<open>WhiteSpace and LineTerminator of ECMAScript, below 256: TAB, LF, VT, FF, CR, SP, NBSP.\<close>
  "is_white c \<longleftrightarrow> of_char c \<in> {9, 10, 11, 12, 13, 32, 160 :: nat}"

definition trim :: "string \<Rightarrow> string" where
  \<comment> \<open>\<^verbatim>\<open>String.prototype.trim\<close>\<close>
  "trim s = rev (dropWhile is_white (rev (dropWhile is_white s)))"

definition is_digit :: "char \<Rightarrow> bool" where
  "is_digit c \<longleftrightarrow> 48 \<le> (of_char c :: nat) \<and> (of_char c :: nat) \<le> 57"

definition hex_value :: "char \<Rightarrow> nat option" where
  "hex_value c =
     (let n = (of_char c :: nat) in
      if 48 \<le> n \<and> n \<le> 57 then Some (n - 48)
      else if 65 \<le> n \<and> n \<le> 70 then Some (n - 55)
      else if 97 \<le> n \<and> n \<le> 102 then Some (n - 87)
      else None)"

fun digits_value :: "nat \<Rightarrow> nat \<Rightarrow> string \<Rightarrow> nat option" where
  \<comment> \<open>the digits of \<open>s\<close> read in base \<open>b\<close>, after the value \<open>acc\<close> of the digits before them\<close>
  "digits_value b acc [] = Some acc"
| "digits_value b acc (c # cs) =
     (case hex_value c of
        None \<Rightarrow> None
      | Some d \<Rightarrow> if d < b then digits_value b (acc * b + d) cs else None)"

definition decimal_value :: "string \<Rightarrow> nat" where
  "decimal_value ds = (case digits_value 10 0 ds of Some n \<Rightarrow> n | None \<Rightarrow> 0)"

definition scale10 :: "rat \<Rightarrow> bool \<Rightarrow> nat \<Rightarrow> rat" where
  \<comment> \<open>\<open>m\<close> times ten to the power \<open>e\<close>, or to the power minus \<open>e\<close>\<close>
  "scale10 m negative e = (if negative then m / 10 ^ e else m * 10 ^ e)"

definition exponent_part :: "string \<Rightarrow> (bool \<times> nat) option" where
  \<comment> \<open>ExponentPart, or nothing: \<^verbatim>\<open>[eE][+-]?[0-9]+\<close> up to the end of the string\<close>
  "exponent_part s =
     (case s of
        [] \<Rightarrow> Some (False, 0)
      | c # r \<Rightarrow>
          if c = CHR ''e'' \<or> c = CHR ''E'' then
            (let negative = (r \<noteq> [] \<and> hd r = CHR ''-'');
                 ds = (if r \<noteq> [] \<and> (hd r = CHR ''-'' \<or> hd r = CHR ''+'') then tl r else r)
             in if ds \<noteq> [] \<and> list_all is_digit ds then Some (negative, decimal_value ds) else None)
          else None)"

definition unsigned_decimal :: "string \<Rightarrow> jsnum" where
  \<comment> \<open>StrUnsignedDecimalLiteral, the whole string\<close>
  "unsigned_decimal s =
     (if s = ''Infinity'' then Infinity
      else
        let ip = takeWhile is_digit s;
            r1 = dropWhile is_digit s;
            dot = (r1 \<noteq> [] \<and> hd r1 = CHR ''.'');
            fp = (if dot then takeWhile is_digit (tl r1) else []);
            r2 = (if dot then dropWhile is_digit (tl r1) else r1)
        in if ip = [] \<and> fp = [] then NaN
           else (case exponent_part r2 of
                   None \<Rightarrow> NaN
                 | Some (negative, e) \<Rightarrow>
                     Finite (scale10 (of_nat (decimal_value ip)
                                      + of_nat (decimal_value fp) / 10 ^ length fp) negative e)))"

definition negate :: "jsnum \<Rightarrow> jsnum" where
  "negate n = (case n of NaN \<Rightarrow> NaN | Finite q \<Rightarrow> Finite (- q)
               | Infinity \<Rightarrow> Neg_Infinity | Neg_Infinity \<Rightarrow> Infinity)"

definition radix_literal :: "string \<Rightarrow> jsnum option" where
  \<comment> \<open>NonDecimalIntegerLiteral: \<^verbatim>\<open>0x\<close>, \<^verbatim>\<open>0o\<close>, \<^verbatim>\<open>0b\<close> and their digits, without a sign\<close>
  "radix_literal s =
     (case s of
        z # p # ds \<Rightarrow>
          if z = CHR ''0'' \<and> ds \<noteq> [] then
            (let base = (if p = CHR ''x'' \<or> p = CHR ''X'' then Some (16::nat)
                         else if p = CHR ''o'' \<or> p = CHR ''O'' then Some 8
                         else if p = CHR ''b'' \<or> p = CHR ''B'' then Some 2
                         else None)
             in case base of
                  None \<Rightarrow> None
                | Some b \<Rightarrow>
                    Some (case digits_value b 0 ds of
                            None \<Rightarrow> NaN
                          | Some n \<Rightarrow> Finite (of_nat n)))
          else None
      | _ \<Rightarrow> None)"

definition StringToNumber :: "string \<Rightarrow> jsnum" where
  \<comment> \<open>the abstract operation StringToNumber: the StringNumericLiteral grammar\<close>
  "StringToNumber s =
     (let t = trim s in
      if t = [] then Finite 0
      else case radix_literal t of
             Some n \<Rightarrow> n
           | None \<Rightarrow>
               if hd t = CHR ''-'' then negate (unsigned_decimal (tl t))
               else if hd t = CHR ''+'' then unsigned_decimal (tl t)
               else unsigned_decimal t)"

subsection \<open>Coercions\<close>

fun ToNumber :: "jsval \<Rightarrow> jsnum" where
  \<comment> \<open>An array is first turned into a string, its elements joined with commas: the empty
      array gives the empty string, an array of one element the string of that element
      (empty for \<^verbatim>\<open>null\<close> and \<^verbatim>\<open>undefined\<close>; a number prints to a string that reads back as
      itself), and a longer array a string with a comma, which is no numeric literal.\<close>
  "ToNumber JUndefined = NaN"
| "ToNumber JNull = Finite 0"
| "ToNumber (JBool b) = Finite (if b then 1 else 0)"
| "ToNumber (JNumber n) = n"
| "ToNumber (JString s) = StringToNumber s"
| "ToNumber (JObject kvs) = NaN"
| "ToNumber (JArray []) = Finite 0"
| "ToNumber (JArray [JUndefined]) = Finite 0"
| "ToNumber (JArray [JNull]) = Finite 0"
| "ToNumber (JArray [JBool b]) = NaN"
| "ToNumber (JArray [JNumber n]) = n"
| "ToNumber (JArray [JString s]) = StringToNumber s"
| "ToNumber (JArray [JObject kvs]) = NaN"
| "ToNumber (JArray [JArray xs]) = ToNumber (JArray xs)"
| "ToNumber (JArray (x # y # zs)) = NaN"

definition ToBoolean :: "jsval \<Rightarrow> bool" where
  "ToBoolean v =
     (case v of
        JUndefined \<Rightarrow> False
      | JNull \<Rightarrow> False
      | JBool b \<Rightarrow> b
      | JNumber n \<Rightarrow> n \<noteq> NaN \<and> n \<noteq> Finite 0
      | JString s \<Rightarrow> s \<noteq> []
      | JArray _ \<Rightarrow> True
      | JObject _ \<Rightarrow> True)"

subsection \<open>Arithmetic with a positive constant\<close>

text \<open>
  The handler divides by 100, multiplies by 5, takes the floor and adds to 10. With a
  positive finite constant as the other operand, each of these keeps \<^verbatim>\<open>NaN\<close> and the two
  infinities as they are.
\<close>

fun on_finite :: "(rat \<Rightarrow> rat) \<Rightarrow> jsnum \<Rightarrow> jsnum" where
  "on_finite f (Finite q) = Finite (f q)"
| "on_finite f n = n"

definition divide_by :: "jsnum \<Rightarrow> rat \<Rightarrow> jsnum" where
  "divide_by n k = on_finite (\<lambda>q. q / k) n"

definition times :: "jsnum \<Rightarrow> rat \<Rightarrow> jsnum" where
  "times n k = on_finite (\<lambda>q. q * k) n"

definition Math_floor :: "jsnum \<Rightarrow> jsnum" where
  "Math_floor n = on_finite (\<lambda>q. of_int \<lfloor>q\<rfloor>) n"

definition plus_to :: "rat \<Rightarrow> jsnum \<Rightarrow> jsnum" where
  "plus_to k n = on_finite (\<lambda>q. k + q) n"

section \<open>The reward\<close>

text \<open>
  \<^verbatim>\<open>
  const baseCredits = 10;
  const confidenceBonus = Math.floor((classification.confidence / 100) * 5);
  const creditsEarned = baseCredits + confidenceBonus;
  \<close>
  Both are functions of the value found under \<^verbatim>\<open>confidence\<close>.
\<close>

definition baseCredits :: rat where
  "baseCredits = 10"

definition confidenceBonus :: "jsval \<Rightarrow> jsnum" where
  "confidenceBonus confidence = Math_floor (times (divide_by (ToNumber confidence) 100) 5)"

definition creditsEarned :: "jsval \<Rightarrow> jsnum" where
  "creditsEarned confidence = plus_to baseCredits (confidenceBonus confidence)"

section \<open>Reading the model's answer\<close>

subsection \<open>Removing the code fence\<close>

text \<open>
  \<^verbatim>\<open>aiResponse.replace(/```json\n?|\n?```/g, '')\<close> scans the text from left to right. At each
  position the first alternative is tried before the second, each optional newline is taken
  when it is there, a match is removed and the scan goes on behind it; where neither
  alternative matches, the character is kept.
\<close>

definition newline :: char where
  "newline = CHR 0x0A"

definition drop_newline :: "string \<Rightarrow> string" where
  "drop_newline s = (case s of [] \<Rightarrow> [] | c # r \<Rightarrow> if c = newline then r else c # r)"

function strip_fences :: "string \<Rightarrow> string" where
  "strip_fences [] = []"
| "strip_fences (c # cs) =
     (if prefix ''```json'' (c # cs) then strip_fences (drop_newline (drop 7 (c # cs)))
      else if prefix (newline # ''```'') (c # cs) then strip_fences (drop 4 (c # cs))
      else if prefix ''```'' (c # cs) then strip_fences (drop 3 (c # cs))
      else c # strip_fences cs)"
  by pat_completeness auto
termination
proof (relation "measure length")
  show "wf (measure length)" by simp
next
  fix c :: char and cs :: string
  have "length (drop_newline (drop 6 cs)) \<le> length (drop 6 cs)"
    by (cases "drop 6 cs") (simp_all add: drop_newline_def)
  then show "(drop_newline (drop 7 (c # cs)), c # cs) \<in> measure length"
    by simp
qed simp_all

definition cleaned :: "string \<Rightarrow> string" where
  \<comment> \<open>\<^verbatim>\<open>aiResponse.replace(...).trim()\<close>\<close>
  "cleaned aiResponse = trim (strip_fences aiResponse)"

subsection \<open>\<^verbatim>\<open>JSON.parse\<close>\<close>

text \<open>
  A recursive-descent reader of the JSON grammar (ECMA-404). Every function takes the text
  still to read and gives the value read and the text behind it, or \<open>None\<close> where
  \<^verbatim>\<open>JSON.parse\<close> throws a SyntaxError. The functions for values, array elements and object
  members call one another; their first argument bounds the number of such calls.
\<close>

definition is_json_ws :: "char \<Rightarrow> bool" where
  "is_json_ws c \<longleftrightarrow> of_char c \<in> {9, 10, 13, 32 :: nat}"

definition skip_ws :: "string \<Rightarrow> string" where
  "skip_ws s = dropWhile is_json_ws s"

definition quote :: char where
  "quote = CHR 0x22"

definition backslash :: char where
  "backslash = CHR 0x5C"

definition simple_escape :: "char \<Rightarrow> char option" where
  "simple_escape e =
     (if e = quote then Some quote
      else if e = backslash then Some backslash
      else if e = CHR ''/'' then Some CHR ''/''
      else if e = CHR ''b'' then Some (CHR 0x08)
      else if e = CHR ''f'' then Some (CHR 0x0C)
      else if e = CHR ''n'' then Some (CHR 0x0A)
      else if e = CHR ''r'' then Some (CHR 0x0D)
      else if e = CHR ''t'' then Some (CHR 0x09)
      else None)"

definition unicode_escape :: "string \<Rightarrow> char option" where
  \<comment> \<open>the four hexadecimal digits behind \<^verbatim>\<open>\u\<close>; a code unit of 256 or more is outside the
      alphabet of the model\<close>
  "unicode_escape s =
     (if length s < 4 then None
      else case digits_value 16 0 (take 4 s) of
             None \<Rightarrow> None
           | Some n \<Rightarrow> if n < 256 then Some (char_of n) else None)"

fun parse_string_body :: "string \<Rightarrow> (string \<times> string) option" where
  \<comment> \<open>the characters of a string behind its opening quote, up to the closing one\<close>
  "parse_string_body [] = None"
| "parse_string_body (c # cs) =
     (if c = quote then Some ([], cs)
      else if c = backslash then
        (case cs of
           [] \<Rightarrow> None
         | e # r \<Rightarrow>
             if e = CHR ''u'' then
               (case unicode_escape r of
                  None \<Rightarrow> None
                | Some u \<Rightarrow> map_option (\<lambda>(str, rest). (u # str, rest)) (parse_string_body (drop 4 r)))
             else
               (case simple_escape e of
                  None \<Rightarrow> None
                | Some u \<Rightarrow> map_option (\<lambda>(str, rest). (u # str, rest)) (parse_string_body r)))
      else if (of_char c :: nat) < 32 then None
      else map_option (\<lambda>(str, rest). (c # str, rest)) (parse_string_body cs))"

definition parse_number :: "string \<Rightarrow> (jsnum \<times> string) option" where
  \<comment> \<open>\<^verbatim>\<open>-? (0 | [1-9][0-9]*) (\.[0-9]+)? ([eE][+-]?[0-9]+)?\<close>\<close>
  "parse_number s =
     (let negative = (s \<noteq> [] \<and> hd s = CHR ''-'');
          s1 = (if negative then tl s else s);
          ip = (if s1 \<noteq> [] \<and> hd s1 = CHR ''0'' then ''0'' else takeWhile is_digit s1);
          r1 = drop (length ip) s1;
          dot = (r1 \<noteq> [] \<and> hd r1 = CHR ''.'');
          fp = (if dot then takeWhile is_digit (tl r1) else []);
          r2 = (if dot then dropWhile is_digit (tl r1) else r1);
          ex = (r2 \<noteq> [] \<and> (hd r2 = CHR ''e'' \<or> hd r2 = CHR ''E''));
          r3 = (if ex \<and> tl r2 \<noteq> [] \<and> (hd (tl r2) = CHR ''-'' \<or> hd (tl r2) = CHR ''+'')
                then tl (tl r2) else tl r2);
          eneg = (ex \<and> tl r2 \<noteq> [] \<and> hd (tl r2) = CHR ''-'');
          ed = (if ex then takeWhile is_digit r3 else []);
          r4 = (if ex then dropWhile is_digit r3 else r2);
          q = scale10 (of_nat (decimal_value ip) + of_nat (decimal_value fp) / 10 ^ length fp)
                eneg (decimal_value ed)
      in if ip = [] \<or> (dot \<and> fp = []) \<or> (ex \<and> ed = []) then None
         else Some (Finite (if negative then - q else q), r4))"

definition put :: "(string \<times> jsval) list \<Rightarrow> string \<times> jsval \<Rightarrow> (string \<times> jsval) list" where
  \<comment> \<open>a later member with the same name replaces the earlier one\<close>
  "put kvs kv = AList.update (fst kv) (snd kv) kvs"

fun parse_value :: "nat \<Rightarrow> string \<Rightarrow> (jsval \<times> string) option"
  and parse_elements :: "nat \<Rightarrow> string \<Rightarrow> (jsval list \<times> string) option"
  and parse_members :: "nat \<Rightarrow> string \<Rightarrow> ((string \<times> jsval) list \<times> string) option"
where
  "parse_value 0 s = None"
| "parse_value (Suc n) s =
     (case skip_ws s of
        [] \<Rightarrow> None
      | c # cs \<Rightarrow>
          if c = CHR ''{'' then
            (case skip_ws cs of
               [] \<Rightarrow> None
             | d # r \<Rightarrow>
                 if d = CHR ''}'' then Some (JObject [], r)
                 else map_option (\<lambda>(kvs, rest). (JObject (foldl put [] kvs), rest))
                        (parse_members n cs))
          else if c = CHR ''['' then
            (case skip_ws cs of
               [] \<Rightarrow> None
             | d # r \<Rightarrow>
                 if d = CHR '']'' then Some (JArray [], r)
                 else map_option (\<lambda>(vs, rest). (JArray vs, rest)) (parse_elements n cs))
          else if c = quote then
            map_option (\<lambda>(str, rest). (JString str, rest)) (parse_string_body cs)
          else if prefix ''true'' (c # cs) then Some (JBool True, drop 4 (c # cs))
          else if prefix ''false'' (c # cs) then Some (JBool False, drop 5 (c # cs))
          else if prefix ''null'' (c # cs) then Some (JNull, drop 4 (c # cs))
          else map_option (\<lambda>(x, rest). (JNumber x, rest)) (parse_number (c # cs)))"
| "parse_elements 0 s = None"
| "parse_elements (Suc n) s =
     (case parse_value n s of
        None \<Rightarrow> None
      | Some (v, r) \<Rightarrow>
          (case skip_ws r of
             [] \<Rightarrow> None
           | d # r' \<Rightarrow>
               if d = CHR '','' then
                 map_option (\<lambda>(vs, rest). (v # vs, rest)) (parse_elements n r')
               else if d = CHR '']'' then Some ([v], r')
               else None))"
| "parse_members 0 s = None"
| "parse_members (Suc n) s =
     (case skip_ws s of
        [] \<Rightarrow> None
      | c # cs \<Rightarrow>
          if c \<noteq> quote then None
          else
            (case parse_string_body cs of
               None \<Rightarrow> None
             | Some (k, r1) \<Rightarrow>
                 (case skip_ws r1 of
                    [] \<Rightarrow> None
                  | colon # r2 \<Rightarrow>
                      if colon \<noteq> CHR '':'' then None
                      else
                        (case parse_value n r2 of
                           None \<Rightarrow> None
                         | Some (v, r3) \<Rightarrow>
                             (case skip_ws r3 of
                                [] \<Rightarrow> None
                              | d # r4 \<Rightarrow>
                                  if d = CHR '','' then
                                    map_option (\<lambda>(kvs, rest). ((k, v) # kvs, rest))
                                      (parse_members n r4)
                                  else if d = CHR ''}'' then Some ([(k, v)], r4)
                                  else None)))))"

definition JSON_parse :: "string \<Rightarrow> jsval option" where
  \<comment> \<open>One value and nothing but white space behind it. Twice the length of the text is
      fuel enough, and more fuel changes nothing (\<open>JSON_parse_fuel\<close> below).\<close>
  "JSON_parse s =
     (case parse_value (2 * length s + 2) s of
        None \<Rightarrow> None
      | Some (v, rest) \<Rightarrow> if skip_ws rest = [] then Some v else None)"

subsection \<open>Reading a property\<close>

text \<open>
  A value thrown inside the handler is either made by the handler itself with
  \<^verbatim>\<open>new Error(message)\<close>, or made by the engine: a TypeError (a property of \<^verbatim>\<open>null\<close> or
  \<^verbatim>\<open>undefined\<close>, a call of something that is no function), a SyntaxError (text that is no
  JSON) or the rejection of \<^verbatim>\<open>fetch\<close>. All of them are instances of \<^verbatim>\<open>Error\<close>. The wording
  of the engine's messages is not part of the model: such a message is known by the kind of
  its error only.
\<close>

datatype engine_error = TypeError | SyntaxError | Network_failure

datatype js_exn = Error string | Engine engine_error

definition get_property :: "jsval \<Rightarrow> string \<Rightarrow> js_exn + jsval" where
  \<comment> \<open>\<^verbatim>\<open>v.name\<close>, for the names the handler reads (\<^verbatim>\<open>imageBase64\<close>, \<^verbatim>\<open>choices\<close>, \<^verbatim>\<open>message\<close>,
      \<^verbatim>\<open>content\<close>, \<^verbatim>\<open>category\<close>, \<^verbatim>\<open>confidence\<close>, \<^verbatim>\<open>reasoning\<close>): none of them is a property that
      strings, arrays or objects inherit\<close>
  "get_property v name =
     (case v of
        JUndefined \<Rightarrow> Inl (Engine TypeError)
      | JNull \<Rightarrow> Inl (Engine TypeError)
      | JObject kvs \<Rightarrow> Inr (case map_of kvs name of None \<Rightarrow> JUndefined | Some x \<Rightarrow> x)
      | _ \<Rightarrow> Inr JUndefined)"

definition get_first :: "jsval \<Rightarrow> js_exn + jsval" where
  \<comment> \<open>\<^verbatim>\<open>v[0]\<close>\<close>
  "get_first v =
     (case v of
        JUndefined \<Rightarrow> Inl (Engine TypeError)
      | JNull \<Rightarrow> Inl (Engine TypeError)
      | JArray xs \<Rightarrow> Inr (case xs of [] \<Rightarrow> JUndefined | x # _ \<Rightarrow> x)
      | JString str \<Rightarrow> Inr (case str of [] \<Rightarrow> JUndefined | c # _ \<Rightarrow> JString [c])
      | JObject kvs \<Rightarrow> Inr (case map_of kvs ''0'' of None \<Rightarrow> JUndefined | Some x \<Rightarrow> x)
      | _ \<Rightarrow> Inr JUndefined)"

definition Array_includes :: "string list \<Rightarrow> jsval \<Rightarrow> bool" where
  \<comment> \<open>\<^verbatim>\<open>Array.prototype.includes\<close> on an array of strings: only an equal string is found\<close>
  "Array_includes xs v = (case v of JString str \<Rightarrow> str \<in> set xs | _ \<Rightarrow> False)"

fun decimal :: "nat \<Rightarrow> string" where
  \<comment> \<open>a natural number in a template literal\<close>
  "decimal n =
     (if n < 10 then [char_of (48 + n)] else decimal (n div 10) @ [char_of (48 + n mod 10)])"

declare decimal.simps [simp del]

section \<open>The classification handler\<close>

subsection \<open>Requests and responses\<close>

record request =
  req_method :: string
  req_body :: string

text \<open>The response of the model endpoint, as \<^verbatim>\<open>fetch\<close> resolves it.\<close>

record upstream =
  up_status :: nat
  up_body :: string

definition ok :: "upstream \<Rightarrow> bool" where
  "ok r \<longleftrightarrow> 200 \<le> up_status r \<and> up_status r \<le> 299"

datatype fetch_outcome = Rejected | Resolved upstream

record fetch_request =
  url :: string
  fetch_method :: string
  fetch_headers :: "(string \<times> string) list"
  fetch_body :: jsval

text \<open>
  The body of a response is the value handed to \<^verbatim>\<open>JSON.stringify\<close>, before it is printed
  (the printing leaves out a member that is \<^verbatim>\<open>undefined\<close>, and writes \<^verbatim>\<open>null\<close> for \<^verbatim>\<open>NaN\<close> and the
  infinities). Where the handler sends the message of an engine error, the body is
  \<^verbatim>\<open>{ error: message }\<close> with the engine's wording, known here by the kind of the error.
\<close>

datatype body = No_body | Json jsval | Engine_error_body engine_error

record response =
  status :: nat
  headers :: "(string \<times> string) list"
  body :: body

definition corsHeaders :: "(string \<times> string) list" where
  "corsHeaders =
     [(''Access-Control-Allow-Origin'', ''*''),
      (''Access-Control-Allow-Headers'', ''authorization, x-client-info, apikey, content-type'')]"

definition json_headers :: "(string \<times> string) list" where
  \<comment> \<open>\<^verbatim>\<open>{ ...corsHeaders, "Content-Type": "application/json" }\<close>\<close>
  "json_headers = corsHeaders @ [(''Content-Type'', ''application/json'')]"

definition error_object :: "string \<Rightarrow> body" where
  \<comment> \<open>\<^verbatim>\<open>JSON.stringify({ error: message })\<close>\<close>
  "error_object message = Json (JObject [(''error'', JString message)])"

subsection \<open>The call of the model\<close>

definition system_prompt :: string where
  \<open>system_prompt =
     ''You are an expert waste classification AI. Analyze the image and classify the waste into one of these categories:\<newline>- recyclable: plastics, metals, paper, cardboard, glass\<newline>- organic: food waste, plant material, biodegradable items\<newline>- hazardous: batteries, chemicals, electronics, medical waste\<newline>- general: non-recyclable items that don't fit other categories\<newline>\<newline>Respond ONLY with a JSON object in this exact format:\<newline>{\<newline>  "category": "recyclable|organic|hazardous|general",\<newline>  "confidence": 85,\<newline>  "reasoning": "Brief explanation of why this classification"\<newline>}''\<close>

definition model_request :: "string \<Rightarrow> jsval \<Rightarrow> fetch_request" where
  "model_request LOVABLE_API_KEY imageBase64 =
     \<lparr>url = ''https://ai.gateway.lovable.dev/v1/chat/completions'',
      fetch_method = ''POST'',
      fetch_headers =
        [(''Authorization'', ''Bearer '' @ LOVABLE_API_KEY),
         (''Content-Type'', ''application/json'')],
      fetch_body =
        JObject
          [(''model'', JString ''google/gemini-2.5-flash''),
           (''messages'',
            JArray
              [JObject [(''role'', JString ''system''), (''content'', JString system_prompt)],
               JObject
                 [(''role'', JString ''user''),
                  (''content'',
                   JArray
                     [JObject
                        [(''type'', JString ''text''),
                         (''text'', JString ''Please classify this waste item.'')],
                      JObject
                        [(''type'', JString ''image_url''),
                         (''image_url'', JObject [(''url'', imageBase64)])]])]])]\<rparr>"

subsection \<open>From the model's answer to the response\<close>

definition validCategories :: "string list" where
  "validCategories = [''recyclable'', ''organic'', ''hazardous'', ''general'']"

definition classified :: "jsval \<Rightarrow> js_exn + response" where
  \<comment> \<open>lines 106 to 127: from the parsed \<^verbatim>\<open>classification\<close> to the response\<close>
  "classified classification =
     (case get_property classification ''category'' of
        Inl e \<Rightarrow> Inl e
      | Inr category \<Rightarrow>
          if \<not> Array_includes validCategories category
          then Inl (Error ''Invalid category returned by AI'')
          else
            (case get_property classification ''confidence'' of
               Inl e \<Rightarrow> Inl e
             | Inr confidence \<Rightarrow>
                 (case get_property classification ''reasoning'' of
                    Inl e \<Rightarrow> Inl e
                  | Inr reasoning \<Rightarrow>
                      Inr \<lparr>status = 200, headers = json_headers,
                           body = Json (JObject
                             [(''category'', category),
                              (''confidence'', confidence),
                              (''reasoning'', reasoning),
                              (''creditsEarned'', JNumber (creditsEarned confidence))])\<rparr>)))"

definition content_of :: "jsval \<Rightarrow> js_exn + jsval" where
  \<comment> \<open>\<^verbatim>\<open>data.choices[0].message.content\<close>\<close>
  "content_of data =
     (case get_property data ''choices'' of
        Inl e \<Rightarrow> Inl e
      | Inr choices \<Rightarrow>
          (case get_first choices of
             Inl e \<Rightarrow> Inl e
           | Inr choice \<Rightarrow>
               (case get_property choice ''message'' of
                  Inl e \<Rightarrow> Inl e
                | Inr message \<Rightarrow> get_property message ''content'')))"

definition answered :: "jsval \<Rightarrow> js_exn + response" where
  \<comment> \<open>lines 102 to 104: only a string has a \<^verbatim>\<open>replace\<close> to call\<close>
  "answered aiResponse =
     (case aiResponse of
        JString str \<Rightarrow>
          (case JSON_parse (cleaned str) of
             None \<Rightarrow> Inl (Engine SyntaxError)
           | Some classification \<Rightarrow> classified classification)
      | _ \<Rightarrow> Inl (Engine TypeError))"

definition relayed :: "upstream \<Rightarrow> js_exn + response" where
  \<comment> \<open>lines 72 to 127: what the handler does with the response of the model endpoint\<close>
  "relayed r =
     (if \<not> ok r then
        if up_status r = 429 then
          Inr \<lparr>status = 429, headers = json_headers,
               body = error_object ''Rate limit exceeded. Please try again later.''\<rparr>
        else if up_status r = 402 then
          Inr \<lparr>status = 402, headers = json_headers,
               body = error_object ''AI credits depleted. Please add credits to continue.''\<rparr>
        else Inl (Error (''AI gateway error: '' @ decimal (up_status r)))
      else
        (case JSON_parse (up_body r) of
           None \<Rightarrow> Inl (Engine SyntaxError)
         | Some data \<Rightarrow>
             (case content_of data of
                Inl e \<Rightarrow> Inl e
              | Inr aiResponse \<Rightarrow> answered aiResponse)))"

subsection \<open>The handler\<close>

text \<open>
  The handler reads the process environment and calls \<^verbatim>\<open>fetch\<close>; both are parameters. It
  gives its response together with the calls of \<^verbatim>\<open>fetch\<close> it has made, in order.
\<close>

definition image_of :: "request \<Rightarrow> js_exn + jsval" where
  \<comment> \<open>\<^verbatim>\<open>const { imageBase64 } = await req.json()\<close>\<close>
  "image_of req =
     (case JSON_parse (req_body req) of
        None \<Rightarrow> Inl (Engine SyntaxError)
      | Some parsed \<Rightarrow> get_property parsed ''imageBase64'')"

definition try_block ::
  "(string \<Rightarrow> string option) \<Rightarrow> (fetch_request \<Rightarrow> fetch_outcome) \<Rightarrow> request
     \<Rightarrow> (js_exn + response) \<times> fetch_request list" where
  "try_block env fetch req =
     (case image_of req of
        Inl e \<Rightarrow> (Inl e, [])
      | Inr imageBase64 \<Rightarrow>
          if \<not> ToBoolean imageBase64 then (Inl (Error ''No image provided''), [])
          else
            (case env ''LOVABLE_API_KEY'' of
               None \<Rightarrow> (Inl (Error ''LOVABLE_API_KEY not configured''), [])
             | Some LOVABLE_API_KEY \<Rightarrow>
                 if LOVABLE_API_KEY = [] then (Inl (Error ''LOVABLE_API_KEY not configured''), [])
                 else
                   (let call = model_request LOVABLE_API_KEY imageBase64 in
                    case fetch call of
                      Rejected \<Rightarrow> (Inl (Engine Network_failure), [call])
                    | Resolved r \<Rightarrow> (relayed r, [call]))))"

definition caught :: "js_exn \<Rightarrow> response" where
  \<comment> \<open>the catch clause; \<^verbatim>\<open>error instanceof Error\<close> holds of everything thrown above\<close>
  "caught e =
     \<lparr>status = 500, headers = json_headers,
      body = (case e of Error message \<Rightarrow> error_object message
              | Engine k \<Rightarrow> Engine_error_body k)\<rparr>"

definition handler ::
  "(string \<Rightarrow> string option) \<Rightarrow> (fetch_request \<Rightarrow> fetch_outcome) \<Rightarrow> request
     \<Rightarrow> response \<times> fetch_request list" where
  "handler env fetch req =
     (if req_method req = ''OPTIONS'' then (\<lparr>status = 200, headers = corsHeaders, body = No_body\<rparr>, [])
      else
        (case try_block env fetch req of
           (Inr resp, calls) \<Rightarrow> (resp, calls)
         | (Inl e, calls) \<Rightarrow> (caught e, calls)))"

section \<open>The sign-in page\<close>

text \<open>
  \<^verbatim>\<open>src/pages/Auth.tsx\<close> keeps its form in seven state variables. A handler is a function of
  the state of the render it was made in; it gives the state after its last update, the
  toasts it has shown, and the calls of the identity provider it has made.

  The provider answers a call with \<^verbatim>\<open>{ error }\<close>: \<^verbatim>\<open>null\<close>, or an error with a message. A call
  that throws an error with that message is handled the same way by both handlers, so the
  two are one answer here.
\<close>

record auth_state =
  isLogin :: bool
  useOTP :: bool
  email :: string
  password :: string
  otp :: string
  otpSent :: bool
  loading :: bool

record toast =
  title :: string
  description :: string
  variant :: "string option"

datatype provider_call =
    SignInWithOtp string string  \<comment> \<open>\<^verbatim>\<open>email\<close>, \<^verbatim>\<open>options.emailRedirectTo\<close>\<close>
  | VerifyOtp string string string  \<comment> \<open>\<^verbatim>\<open>email\<close>, \<^verbatim>\<open>token\<close>, \<^verbatim>\<open>type\<close>\<close>

datatype auth_result = Succeeded | Refused string

definition emailSchema_parse :: "(string \<Rightarrow> bool) \<Rightarrow> string \<Rightarrow> string list" where
  \<comment> \<open>\<^verbatim>\<open>z.string().email("Invalid email address").max(255)\<close>: the messages of the issues, in
      the order of the checks. The shape of an address is the library's regular expression,
      a parameter here; the second message is the library's own (zod 3).\<close>
  "emailSchema_parse is_email s =
     (if is_email s then [] else [''Invalid email address''])
     @ (if 255 < length s then [''String must contain at most 255 character(s)''] else [])"

definition handleSendOTP ::
  "string \<Rightarrow> (string \<Rightarrow> bool) \<Rightarrow> (provider_call \<Rightarrow> auth_result) \<Rightarrow> auth_state
     \<Rightarrow> auth_state \<times> toast list \<times> provider_call list" where
  "handleSendOTP origin is_email provider st =
     (case emailSchema_parse is_email (trim (email st)) of
        issue # _ \<Rightarrow>
          (st\<lparr>loading := False\<rparr>,
           [\<lparr>title = ''Validation error'', description = issue,
             variant = Some ''destructive''\<rparr>],
           [])
      | [] \<Rightarrow>
          (let call = SignInWithOtp (trim (email st)) (origin @ ''/demo'') in
           case provider call of
             Refused message \<Rightarrow>
               (st\<lparr>loading := False\<rparr>,
                [\<lparr>title = ''Error'', description = ''Failed to send code'',
                  variant = Some ''destructive''\<rparr>],
                [call])
           | Succeeded \<Rightarrow>
               (st\<lparr>otpSent := True, loading := False\<rparr>,
                [\<lparr>title = ''Code sent!'',
                  description = ''Check your email for the verification code'',
                  variant = None\<rparr>],
                [call])))"

definition handleVerifyOTP ::
  "(provider_call \<Rightarrow> auth_result) \<Rightarrow> auth_state
     \<Rightarrow> auth_state \<times> toast list \<times> provider_call list" where
  "handleVerifyOTP provider st =
     (if length (otp st) \<noteq> 6 then
        (st\<lparr>loading := False\<rparr>,
         [\<lparr>title = ''Error'', description = ''Please enter a 6-digit code'',
           variant = Some ''destructive''\<rparr>],
         [])
      else
        (let call = VerifyOtp (trim (email st)) (otp st) ''email'' in
         case provider call of
           Refused message \<Rightarrow>
             (st\<lparr>loading := False\<rparr>,
              [\<lparr>title = ''Error'',
                description = (if message = [] then ''Invalid code'' else message),
                variant = Some ''destructive''\<rparr>],
              [call])
         | Succeeded \<Rightarrow>
             (st\<lparr>loading := False\<rparr>,
              [\<lparr>title = ''Success!'', description = ''Successfully authenticated'',
                variant = None\<rparr>],
              [call])))"

section \<open>Example inputs\<close>

text \<open>
  The concrete environment, requests and answers at which the theorems below are
  instantiated. An answer of the model endpoint is a chat completion whose only choice
  carries the text of the model, written as a JSON string.
\<close>

definition configured :: "string \<Rightarrow> string option" where
  "configured name = (if name = ''LOVABLE_API_KEY'' then Some ''secret'' else None)"


definition post :: "string \<Rightarrow> request" where
  "post json = \<lparr>req_method = ''POST'', req_body = json\<rparr>"

definition photo :: request where
  \<open>photo = post ''{"imageBase64":"data:image/png;base64,iVBORw0KGgo="}''\<close>

definition replying :: "upstream \<Rightarrow> fetch_request \<Rightarrow> fetch_outcome" where
  "replying r call = Resolved r"

fun json_escape :: "string \<Rightarrow> string" where
  "json_escape [] = []"
| "json_escape (c # cs) =
     (if c = quote \<or> c = backslash then backslash # c # json_escape cs
      else if c = newline then backslash # CHR ''n'' # json_escape cs
      else c # json_escape cs)"

definition completion :: "string \<Rightarrow> upstream" where
  \<open>completion content =
     \<lparr>up_status = 200,
      up_body = ''{"choices":[{"message":{"role":"assistant","content":"''
                @ json_escape content @ ''"}}]}''\<rparr>\<close>

definition fenced_answer :: string where
  \<open>fenced_answer =
     ''```json\<newline>{"category":"organic","confidence":80,"reasoning":"x"}\<newline>```''\<close>

definition plastic_answer :: string where
  \<open>plastic_answer = ''{"category":"plastic","confidence":90,"reasoning":"a bottle"}''\<close>


definition throttled :: upstream where
  \<open>throttled = \<lparr>up_status = 429, up_body = ''{"error":"slow down"}''\<rparr>\<close>

definition code_request :: auth_state where
  "code_request =
     \<lparr>isLogin = True, useOTP = True, email = ''ada@example.org'', password = [],
      otp = [], otpSent = False, loading = False\<rparr>"

definition has_at :: "string \<Rightarrow> bool" where
  "has_at s \<longleftrightarrow> CHR ''@'' \<in> set s"

definition accepting :: "provider_call \<Rightarrow> auth_result" where
  "accepting call = Succeeded"

definition refusing :: "provider_call \<Rightarrow> auth_result" where
  "refusing call = Refused ''Token has expired or is invalid''"

definition miscased_answer :: string where
  \<open>miscased_answer = ''{"category":"Organic","confidence":90,"reasoning":"peel"}''\<close>

definition null_category_answer :: string where
  \<open>null_category_answer = ''{"category":null,"confidence":90,"reasoning":"unclear"}''\<close>

definition six_letters :: auth_state where
  "six_letters = code_request\<lparr>otp := ''abcdef'', otpSent := True\<rparr>"

definition five_digits :: auth_state where
  "five_digits = code_request\<lparr>otp := ''12345'', otpSent := True\<rparr>"

section \<open>The JSON reader and its fuel\<close>

text \<open>
  The three mutually recursive functions of the reader count their calls down from a
  number of steps. Every call that succeeds has read at least one character, so a reading
  of a text of length \<open>n\<close> never needs more than \<open>2 * n + 2\<close> steps: with that many or more
  the result is the same. \<open>JSON_parse\<close> is therefore the reader itself, not the reader cut
  off.
\<close>

lemma skip_ws_length: "length (skip_ws s) \<le> length s"
  by (simp add: skip_ws_def length_dropWhile_le)

lemma skip_ws_Cons_length: "skip_ws s = c # cs \<Longrightarrow> length cs < length s"
  using skip_ws_length [of s] by simp

lemma parse_string_body_shorter:
  "parse_string_body s = Some (str, r) \<Longrightarrow> length r < length s"
proof (induction "length s" arbitrary: s str r rule: less_induct)
  case less
  show ?case
  proof (cases s)
    case Nil
    with less.prems show ?thesis by simp
  next
    case (Cons c cs)
    consider (q) "c = quote" | (b) "c \<noteq> quote" "c = backslash"
      | (o) "c \<noteq> quote" "c \<noteq> backslash"
      by blast
    then show ?thesis
    proof cases
      case q
      with Cons less.prems show ?thesis by simp
    next
      case o
      with Cons less.prems obtain str' where "parse_string_body cs = Some (str', r)"
        by (auto split: if_splits)
      with less.hyps [of cs str' r] Cons show ?thesis by simp
    next
      case b
      show ?thesis
      proof (cases cs)
        case Nil
        with b Cons less.prems show ?thesis by simp
      next
        case inner: (Cons e r')
        show ?thesis
        proof (cases "e = CHR ''u''")
          case True
          with b Cons inner less.prems obtain str'
            where "parse_string_body (drop 4 r') = Some (str', r)"
            by (auto split: option.splits)
          moreover have "length (drop 4 r') < length s"
            using Cons inner by simp
          ultimately have "length r < length (drop 4 r')"
            by (rule less.hyps [rotated])
          then show ?thesis using Cons inner by simp
        next
          case False
          with b Cons inner less.prems obtain str'
            where "parse_string_body r' = Some (str', r)"
            by (auto split: option.splits)
          with less.hyps [of r' str' r] Cons inner show ?thesis by simp
        qed
      qed
    qed
  qed
qed

lemma parse_number_shorter:
  assumes "parse_number s = Some (x, r)"
  shows "length r < length s"
proof -
  define negative where "negative \<longleftrightarrow> s \<noteq> [] \<and> hd s = CHR ''-''"
  define s1 where "s1 = (if negative then tl s else s)"
  define ip where "ip = (if s1 \<noteq> [] \<and> hd s1 = CHR ''0'' then ''0'' else takeWhile is_digit s1)"
  define r1 where "r1 = drop (length ip) s1"
  define dot where "dot \<longleftrightarrow> r1 \<noteq> [] \<and> hd r1 = CHR ''.''"
  define fp where "fp = (if dot then takeWhile is_digit (tl r1) else [])"
  define r2 where "r2 = (if dot then dropWhile is_digit (tl r1) else r1)"
  define ex where "ex \<longleftrightarrow> r2 \<noteq> [] \<and> (hd r2 = CHR ''e'' \<or> hd r2 = CHR ''E'')"
  define r3 where "r3 = (if ex \<and> tl r2 \<noteq> [] \<and> (hd (tl r2) = CHR ''-'' \<or> hd (tl r2) = CHR ''+'')
                then tl (tl r2) else tl r2)"
  define eneg where "eneg \<longleftrightarrow> ex \<and> tl r2 \<noteq> [] \<and> hd (tl r2) = CHR ''-''"
  define ed where "ed = (if ex then takeWhile is_digit r3 else [])"
  define r4 where "r4 = (if ex then dropWhile is_digit r3 else r2)"
  define q where "q = scale10 (of_nat (decimal_value ip) + of_nat (decimal_value fp) / 10 ^ length fp)
                eneg (decimal_value ed)"
  have "parse_number s =
          (if ip = [] \<or> (dot \<and> fp = []) \<or> (ex \<and> ed = []) then None
           else Some (Finite (if negative then - q else q), r4))"
    unfolding parse_number_def Let_def q_def r4_def ed_def eneg_def r3_def ex_def r2_def fp_def
      dot_def r1_def ip_def s1_def negative_def
    by (rule refl)
  with assms have ip: "ip \<noteq> []" and r: "r = r4"
    by (auto split: if_splits)
  have "length ip \<le> length s1"
    unfolding ip_def by (cases s1) (auto simp: length_takeWhile_le)
  with ip have "length r1 < length s1"
    unfolding r1_def by (cases ip) auto
  moreover have "length s1 \<le> length s"
    unfolding s1_def by simp
  moreover have "length r2 \<le> length r1"
    unfolding r2_def using length_dropWhile_le [of is_digit "tl r1"] by auto
  moreover have "length r3 \<le> length r2"
    unfolding r3_def by auto
  moreover have "length r4 \<le> length r2"
    unfolding r4_def using length_dropWhile_le [of is_digit r3] \<open>length r3 \<le> length r2\<close> by auto
  ultimately show ?thesis using r by simp
qed

lemma parse_value_Suc_shorter:
  assumes members: "\<And>s kvs r. parse_members n s = Some (kvs, r) \<Longrightarrow> length r < length s"
    and elements: "\<And>s vs r. parse_elements n s = Some (vs, r) \<Longrightarrow> length r < length s"
    and "parse_value (Suc n) s = Some (v, r)"
  shows "length r < length s"
proof (cases "skip_ws s")
  case Nil
  with assms(3) show ?thesis by simp
next
  case (Cons c cs)
  then have cs: "length cs < length s" and ccs: "length (c # cs) \<le> length s"
    using skip_ws_length [of s] by simp_all
  consider (obj) "c = CHR ''{''" | (arr) "c \<noteq> CHR ''{''" "c = CHR ''[''"
    | (str) "c \<noteq> CHR ''{''" "c \<noteq> CHR ''[''" "c = quote"
    | (other) "c \<noteq> CHR ''{''" "c \<noteq> CHR ''[''" "c \<noteq> quote"
    by blast
  then show ?thesis
  proof cases
    case obj
    show ?thesis
    proof (cases "skip_ws cs")
      case Nil
      with obj Cons assms(3) show ?thesis by simp
    next
      case inner: (Cons d r0)
      show ?thesis
      proof (cases "d = CHR ''}''")
        case True
        with obj Cons inner assms(3) have "r = r0" by simp
        with skip_ws_Cons_length [OF inner] cs show ?thesis by simp
      next
        case False
        with obj Cons inner assms(3) obtain kvs where "parse_members n cs = Some (kvs, r)"
          by auto
        from members [OF this] cs show ?thesis by simp
      qed
    qed
  next
    case arr
    show ?thesis
    proof (cases "skip_ws cs")
      case Nil
      with arr Cons assms(3) show ?thesis by simp
    next
      case inner: (Cons d r0)
      show ?thesis
      proof (cases "d = CHR '']''")
        case True
        with arr Cons inner assms(3) have "r = r0" by simp
        with skip_ws_Cons_length [OF inner] cs show ?thesis by simp
      next
        case False
        with arr Cons inner assms(3) obtain vs where "parse_elements n cs = Some (vs, r)"
          by auto
        from elements [OF this] cs show ?thesis by simp
      qed
    qed
  next
    case str
    with Cons assms(3) obtain x where "parse_string_body cs = Some (x, r)"
      by auto
    from parse_string_body_shorter [OF this] cs show ?thesis by simp
  next
    case other
    with Cons assms(3) have
      "r = drop 4 (c # cs) \<or> r = drop 5 (c # cs) \<or> (\<exists>x. parse_number (c # cs) = Some (x, r))"
      by (auto split: if_splits)
    then show ?thesis
      using ccs by (auto dest: parse_number_shorter)
  qed
qed

lemma parse_elements_Suc_shorter:
  assumes val: "\<And>s v r. parse_value n s = Some (v, r) \<Longrightarrow> length r < length s"
    and elements: "\<And>s vs r. parse_elements n s = Some (vs, r) \<Longrightarrow> length r < length s"
    and "parse_elements (Suc n) s = Some (vs, r)"
  shows "length r < length s"
proof -
  from assms(3) obtain v r1 where v: "parse_value n s = Some (v, r1)"
    by (auto split: option.splits)
  from val [OF v] have r1: "length r1 < length s" .
  from assms(3) v obtain d r2 where d: "skip_ws r1 = d # r2"
    by (auto split: list.splits)
  from skip_ws_Cons_length [OF d] r1 have r2: "length r2 < length s" by simp
  show ?thesis
  proof (cases "d = CHR '',''")
    case True
    with assms(3) v d obtain vs' where "parse_elements n r2 = Some (vs', r)"
      by auto
    from elements [OF this] r2 show ?thesis by simp
  next
    case False
    with assms(3) v d have "r = r2"
      by (auto split: if_splits)
    with r2 show ?thesis by simp
  qed
qed

lemma parse_members_Suc_shorter:
  assumes val: "\<And>s v r. parse_value n s = Some (v, r) \<Longrightarrow> length r < length s"
    and members: "\<And>s kvs r. parse_members n s = Some (kvs, r) \<Longrightarrow> length r < length s"
    and "parse_members (Suc n) s = Some (kvs, r)"
  shows "length r < length s"
proof -
  from assms(3) obtain c cs where c: "skip_ws s = c # cs"
    by (auto split: list.splits)
  from skip_ws_Cons_length [OF c] have cs: "length cs < length s" .
  from assms(3) c have q: "c = quote"
    by (auto split: if_splits)
  from assms(3) c q obtain k r1 where k: "parse_string_body cs = Some (k, r1)"
    by (auto split: option.splits)
  from parse_string_body_shorter [OF k] cs have r1: "length r1 < length s" by simp
  from assms(3) c q k obtain colon r2 where colon: "skip_ws r1 = colon # r2"
    by (auto split: list.splits)
  from skip_ws_Cons_length [OF colon] r1 have r2: "length r2 < length s" by simp
  from assms(3) c q k colon have col: "colon = CHR '':''"
    by (auto split: if_splits)
  from assms(3) c q k colon col obtain v r3 where v: "parse_value n r2 = Some (v, r3)"
    by (auto split: option.splits)
  from val [OF v] r2 have r3: "length r3 < length s" by simp
  from assms(3) c q k colon col v obtain d r4 where d: "skip_ws r3 = d # r4"
    by (auto split: list.splits)
  from skip_ws_Cons_length [OF d] r3 have r4: "length r4 < length s" by simp
  show ?thesis
  proof (cases "d = CHR '',''")
    case True
    with assms(3) c q k colon col v d obtain kvs' where "parse_members n r4 = Some (kvs', r)"
      by auto
    from members [OF this] r4 show ?thesis by simp
  next
    case False
    with assms(3) c q k colon col v d have "r = r4"
      by (auto split: if_splits)
    with r4 show ?thesis by simp
  qed
qed

lemma parse_shorter:
  "(\<forall>s v r. parse_value n s = Some (v, r) \<longrightarrow> length r < length s)
   \<and> (\<forall>s vs r. parse_elements n s = Some (vs, r) \<longrightarrow> length r < length s)
   \<and> (\<forall>s kvs r. parse_members n s = Some (kvs, r) \<longrightarrow> length r < length s)"
proof (induction n)
  case 0
  show ?case by simp
next
  case (Suc n)
  then have v: "\<And>s v r. parse_value n s = Some (v, r) \<Longrightarrow> length r < length s"
    and e: "\<And>s vs r. parse_elements n s = Some (vs, r) \<Longrightarrow> length r < length s"
    and m: "\<And>s kvs r. parse_members n s = Some (kvs, r) \<Longrightarrow> length r < length s"
    by blast+
  show ?case
  proof (intro conjI allI impI)
    fix s x r
    assume "parse_value (Suc n) s = Some (x, r)"
    with m e show "length r < length s"
      by (rule parse_value_Suc_shorter [where n = n])
  next
    fix s x r
    assume "parse_elements (Suc n) s = Some (x, r)"
    with v e show "length r < length s"
      by (rule parse_elements_Suc_shorter [where n = n])
  next
    fix s x r
    assume "parse_members (Suc n) s = Some (x, r)"
    with v m show "length r < length s"
      by (rule parse_members_Suc_shorter [where n = n])
  qed
qed

lemma parse_value_shorter: "parse_value n s = Some (v, r) \<Longrightarrow> length r < length s"
  using parse_shorter by blast

lemma parse_value_Suc_fuel:
  assumes elements: "\<And>s m. 2 * length s + 2 \<le> n \<Longrightarrow> n \<le> m \<Longrightarrow> parse_elements m s = parse_elements n s"
    and members: "\<And>s m. 2 * length s + 2 \<le> n \<Longrightarrow> n \<le> m \<Longrightarrow> parse_members m s = parse_members n s"
    and "2 * length s + 1 \<le> Suc n" and "Suc n \<le> m"
  shows "parse_value m s = parse_value (Suc n) s"
proof -
  from assms(4) obtain m' where m: "m = Suc m'" and m': "n \<le> m'"
    by (cases m) auto
  show ?thesis
  proof (cases "skip_ws s")
    case Nil
    then show ?thesis by (simp add: m)
  next
    case (Cons c cs)
    from skip_ws_Cons_length [OF Cons] assms(3) have "2 * length cs + 2 \<le> n"
      by simp
    then have "parse_elements m' cs = parse_elements n cs"
      and "parse_members m' cs = parse_members n cs"
      using m' by (rule elements, rule members)
    then show ?thesis
      by (simp add: m Cons cong: list.case_cong if_cong)
  qed
qed

lemma parse_elements_Suc_fuel:
  assumes val: "\<And>s m. 2 * length s + 1 \<le> n \<Longrightarrow> n \<le> m \<Longrightarrow> parse_value m s = parse_value n s"
    and elements: "\<And>s m. 2 * length s + 2 \<le> n \<Longrightarrow> n \<le> m \<Longrightarrow> parse_elements m s = parse_elements n s"
    and "2 * length s + 2 \<le> Suc n" and "Suc n \<le> m"
  shows "parse_elements m s = parse_elements (Suc n) s"
proof -
  from assms(4) obtain m' where m: "m = Suc m'" and m': "n \<le> m'"
    by (cases m) auto
  from assms(3) have "2 * length s + 1 \<le> n" by simp
  then have v: "parse_value m' s = parse_value n s"
    using m' by (rule val)
  show ?thesis
  proof (cases "parse_value n s")
    case None
    with v show ?thesis by (simp add: m)
  next
    case (Some p)
    obtain x r where p: "p = (x, r)" by (cases p)
    from parse_value_shorter Some p have r: "length r < length s" by blast
    show ?thesis
    proof (cases "skip_ws r")
      case Nil
      with v Some p show ?thesis by (simp add: m)
    next
      case (Cons d r')
      from skip_ws_Cons_length [OF Cons] r assms(3) have "2 * length r' + 2 \<le> n"
        by simp
      then have "parse_elements m' r' = parse_elements n r'"
        using m' by (rule elements)
      with v Some p Cons show ?thesis by (simp add: m)
    qed
  qed
qed

lemma parse_members_Suc_fuel:
  assumes val: "\<And>s m. 2 * length s + 1 \<le> n \<Longrightarrow> n \<le> m \<Longrightarrow> parse_value m s = parse_value n s"
    and members: "\<And>s m. 2 * length s + 2 \<le> n \<Longrightarrow> n \<le> m \<Longrightarrow> parse_members m s = parse_members n s"
    and "2 * length s + 2 \<le> Suc n" and "Suc n \<le> m"
  shows "parse_members m s = parse_members (Suc n) s"
proof -
  from assms(4) obtain m' where m: "m = Suc m'" and m': "n \<le> m'"
    by (cases m) auto
  show ?thesis
  proof (cases "skip_ws s")
    case Nil
    then show ?thesis by (simp add: m)
  next
    case (Cons c cs)
    note cs = skip_ws_Cons_length [OF Cons]
    show ?thesis
    proof (cases "parse_string_body cs")
      case None
      with Cons show ?thesis by (simp add: m)
    next
      case (Some p)
      obtain k r1 where p: "p = (k, r1)" by (cases p)
      from parse_string_body_shorter Some p have r1: "length r1 < length cs" by blast
      show ?thesis
      proof (cases "skip_ws r1")
        case Nil
        with Cons Some p show ?thesis by (simp add: m)
      next
        case colon: (Cons colon r2)
        note r2 = skip_ws_Cons_length [OF colon]
        from r2 r1 cs assms(3) have "2 * length r2 + 1 \<le> n"
          by simp
        then have v: "parse_value m' r2 = parse_value n r2"
          using m' by (rule val)
        show ?thesis
        proof (cases "parse_value n r2")
          case None
          with v Cons Some p colon show ?thesis by (simp add: m)
        next
          case got: (Some pv)
          obtain x r3 where pv: "pv = (x, r3)" by (cases pv)
          from parse_value_shorter got pv have r3: "length r3 < length r2" by blast
          show ?thesis
          proof (cases "skip_ws r3")
            case Nil
            with v got pv Cons Some p colon show ?thesis by (simp add: m)
          next
            case sep: (Cons d r4)
            from skip_ws_Cons_length [OF sep] r3 r2 r1 cs assms(3)
            have "2 * length r4 + 2 \<le> n"
              by simp
            then have "parse_members m' r4 = parse_members n r4"
              using m' by (rule members)
            with v got pv Cons Some p colon sep show ?thesis by (simp add: m)
          qed
        qed
      qed
    qed
  qed
qed

lemma parse_fuel:
  "(\<forall>s m. 2 * length s + 1 \<le> n \<longrightarrow> n \<le> m \<longrightarrow> parse_value m s = parse_value n s)
   \<and> (\<forall>s m. 2 * length s + 2 \<le> n \<longrightarrow> n \<le> m \<longrightarrow> parse_elements m s = parse_elements n s)
   \<and> (\<forall>s m. 2 * length s + 2 \<le> n \<longrightarrow> n \<le> m \<longrightarrow> parse_members m s = parse_members n s)"
proof (induction n)
  case 0
  show ?case by simp
next
  case (Suc n)
  then have v: "\<And>s m. 2 * length s + 1 \<le> n \<Longrightarrow> n \<le> m \<Longrightarrow> parse_value m s = parse_value n s"
    and e: "\<And>s m. 2 * length s + 2 \<le> n \<Longrightarrow> n \<le> m \<Longrightarrow> parse_elements m s = parse_elements n s"
    and k: "\<And>s m. 2 * length s + 2 \<le> n \<Longrightarrow> n \<le> m \<Longrightarrow> parse_members m s = parse_members n s"
    by blast+
  show ?case
  proof (intro conjI allI impI)
    fix s :: string and m :: nat
    assume "2 * length s + 1 \<le> Suc n" and "Suc n \<le> m"
    with e k show "parse_value m s = parse_value (Suc n) s"
      by (rule parse_value_Suc_fuel [where n = n])
  next
    fix s :: string and m :: nat
    assume "2 * length s + 2 \<le> Suc n" and "Suc n \<le> m"
    with v e show "parse_elements m s = parse_elements (Suc n) s"
      by (rule parse_elements_Suc_fuel [where n = n])
  next
    fix s :: string and m :: nat
    assume "2 * length s + 2 \<le> Suc n" and "Suc n \<le> m"
    with v k show "parse_members m s = parse_members (Suc n) s"
      by (rule parse_members_Suc_fuel [where n = n])
  qed
qed

lemma JSON_parse_fuel:
  assumes "2 * length s + 2 \<le> n"
  shows "JSON_parse s =
           (case parse_value n s of
              None \<Rightarrow> None
            | Some (v, rest) \<Rightarrow> if skip_ws rest = [] then Some v else None)"
proof -
  have "parse_value n s = parse_value (2 * length s + 2) s"
    using parse_fuel [of "2 * length s + 2"] assms by simp
  then show ?thesis
    by (simp add: JSON_parse_def)
qed

section \<open>How the handler reaches its responses\<close>

text \<open>
  Once the request is no preflight, carries an image, the key is configured and \<^verbatim>\<open>fetch\<close>
  resolves, the handler has made exactly one call and answers with what it makes of the
  response of the model endpoint.
\<close>

lemma handler_calls_model:
  assumes "req_method req \<noteq> ''OPTIONS''"
    and "image_of req = Inr imageBase64" and "ToBoolean imageBase64"
    and "env ''LOVABLE_API_KEY'' = Some key" and "key \<noteq> []"
    and "fetch (model_request key imageBase64) = Resolved r"
  shows "handler env fetch req =
           (case relayed r of Inl e \<Rightarrow> caught e | Inr resp \<Rightarrow> resp,
            [model_request key imageBase64])"
  using assms by (simp add: handler_def try_block_def split: sum.splits)

text \<open>The response of a request that is no preflight, path by path.\<close>

lemma handler_unfold:
  assumes "req_method req \<noteq> ''OPTIONS''"
  shows "fst (handler env fetch req) =
     (case image_of req of
        Inl e \<Rightarrow> caught e
      | Inr imageBase64 \<Rightarrow>
          if \<not> ToBoolean imageBase64 then caught (Error ''No image provided'')
          else if env ''LOVABLE_API_KEY'' = None \<or> env ''LOVABLE_API_KEY'' = Some []
          then caught (Error ''LOVABLE_API_KEY not configured'')
          else
            (case fetch (model_request (the (env ''LOVABLE_API_KEY'')) imageBase64) of
               Rejected \<Rightarrow> caught (Engine Network_failure)
             | Resolved r \<Rightarrow> (case relayed r of Inl e \<Rightarrow> caught e | Inr resp \<Rightarrow> resp)))"
  using assms
  by (simp add: handler_def try_block_def Let_def
      split: sum.splits option.splits fetch_outcome.splits)

lemma caught_simps:
  "status (caught e) = 500"
  "headers (caught e) = json_headers"
  "body (caught (Error m)) = error_object m"
  "body (caught (Engine k)) = Engine_error_body k"
  by (simp_all add: caught_def)







lemma classified_Inr:
  assumes "classified classification = Inr resp"
  shows "\<exists>category confidence reasoning.
           get_property classification ''confidence'' = Inr confidence
         \<and> resp = \<lparr>status = 200, headers = json_headers,
                   body = Json (JObject
                     [(''category'', category), (''confidence'', confidence),
                      (''reasoning'', reasoning),
                      (''creditsEarned'', JNumber (creditsEarned confidence))])\<rparr>"
  using assms unfolding classified_def by (auto split: sum.splits if_splits)


lemma answered_Inr:
  assumes "answered aiResponse = Inr resp"
  shows "\<exists>str classification.
           aiResponse = JString str
         \<and> JSON_parse (cleaned str) = Some classification
         \<and> classified classification = Inr resp"
  using assms unfolding answered_def
  by (cases aiResponse) (auto split: option.splits)


lemma relayed_Inr:
  assumes "relayed r = Inr resp"
  shows "(up_status r = 429 \<and> resp = \<lparr>status = 429, headers = json_headers,
             body = error_object ''Rate limit exceeded. Please try again later.''\<rparr>)
       \<or> (up_status r = 402 \<and> resp = \<lparr>status = 402, headers = json_headers,
             body = error_object ''AI credits depleted. Please add credits to continue.''\<rparr>)
       \<or> (ok r \<and> (\<exists>data str classification.
               JSON_parse (up_body r) = Some data
             \<and> content_of data = Inr (JString str)
             \<and> JSON_parse (cleaned str) = Some classification
             \<and> classified classification = Inr resp))"
  using assms unfolding relayed_def
  by (auto split: if_splits option.splits sum.splits dest: answered_Inr)

lemma relayed_headers: "relayed r = Inr resp \<Longrightarrow> headers resp = json_headers"
  by (auto dest!: relayed_Inr classified_Inr)


lemma handler_headers:
  "headers (fst (handler env fetch req)) =
     (if req_method req = ''OPTIONS'' then corsHeaders else json_headers)"
proof (cases "req_method req = ''OPTIONS''")
  case True
  then show ?thesis by (simp add: handler_def)
next
  case False
  then show ?thesis
    by (simp add: handler_unfold caught_simps relayed_headers
        split: sum.splits fetch_outcome.splits)
qed


text \<open>The example inputs, evaluated.\<close>

lemma photo_method: "req_method photo \<noteq> ''OPTIONS''"
  by code_simp

lemma photo_image:
  "image_of photo = Inr (JString ''data:image/png;base64,iVBORw0KGgo='')"
  by code_simp

lemma photo_truthy: "ToBoolean (JString ''data:image/png;base64,iVBORw0KGgo='')"
  by code_simp

lemma configured_key: "configured ''LOVABLE_API_KEY'' = Some ''secret''"
  by code_simp

lemma secret_not_empty: "''secret'' \<noteq> []"
  by simp

lemma replying_resolved: "replying r call = Resolved r"
  by (simp add: replying_def)

lemma completion_ok: "ok (completion s)"
  by (simp add: ok_def completion_def)


lemma fenced_completion_content:
  \<open>map_option content_of (JSON_parse (up_body (completion fenced_answer)))
     = Some (Inr (JString
         ''```json\<newline>{"category":"organic","confidence":80,"reasoning":"x"}\<newline>```''))\<close>
  by code_simp

lemma plastic_content:
  "map_option content_of (JSON_parse (up_body (completion plastic_answer)))
     = Some (Inr (JString plastic_answer))"
  by code_simp

lemma plastic_parsed:
  "JSON_parse (cleaned plastic_answer)
     = Some (JObject [(''category'', JString ''plastic''),
                      (''confidence'', JNumber (Finite 90)),
                      (''reasoning'', JString ''a bottle'')])"
  by code_simp

lemma miscased_content:
  "map_option content_of (JSON_parse (up_body (completion miscased_answer)))
     = Some (Inr (JString miscased_answer))"
  by code_simp

lemma miscased_parsed:
  "JSON_parse (cleaned miscased_answer)
     = Some (JObject [(''category'', JString ''Organic''),
                      (''confidence'', JNumber (Finite 90)),
                      (''reasoning'', JString ''peel'')])"
  by code_simp

lemma null_category_content:
  "map_option content_of (JSON_parse (up_body (completion null_category_answer)))
     = Some (Inr (JString null_category_answer))"
  by code_simp

lemma null_category_parsed:
  "JSON_parse (cleaned null_category_answer)
     = Some (JObject [(''category'', JNull),
                      (''confidence'', JNumber (Finite 90)),
                      (''reasoning'', JString ''unclear'')])"
  by code_simp

section \<open>The reward as a function of the confidence\<close>

lemma creditsEarned_number:
  "creditsEarned (JNumber (Finite c)) = Finite (of_int (10 + \<lfloor>c / 100 * 5\<rfloor>))"
  by (simp add: creditsEarned_def confidenceBonus_def plus_to_def Math_floor_def times_def
      divide_by_def baseCredits_def)

lemma bonus_range:
  fixes c :: rat
  shows "(10 \<le> 10 + \<lfloor>c / 100 * 5\<rfloor> \<and> 10 + \<lfloor>c / 100 * 5\<rfloor> \<le> 15) \<longleftrightarrow> (0 \<le> c \<and> c < 120)"
proof -
  have "\<lfloor>c / 100 * 5\<rfloor> \<le> 5 \<longleftrightarrow> \<lfloor>c / 100 * 5\<rfloor> < 6" by linarith
  also have "\<dots> \<longleftrightarrow> c / 100 * 5 < 6" by (simp add: floor_less_iff)
  also have "\<dots> \<longleftrightarrow> c < 120" by (simp add: field_simps)
  finally have upper: "\<lfloor>c / 100 * 5\<rfloor> \<le> 5 \<longleftrightarrow> c < 120" .
  have lower: "0 \<le> \<lfloor>c / 100 * 5\<rfloor> \<longleftrightarrow> 0 \<le> c" by (simp add: field_simps)
  show ?thesis using upper lower by linarith
qed

text \<open>
  Claim C7. For every integer confidence from 0 to 100 the reward is
  \<open>10 + \<lfloor>confidence / 100 * 5\<rfloor>\<close>; it does not decrease when the confidence grows, and it
  lies between 10 and 15.
\<close>

theorem creditsEarned_monotone_in_range:
  fixes a b :: int
  assumes "0 \<le> a" and "a \<le> b" and "b \<le> 100"
  shows "creditsEarned (JNumber (Finite (of_int a)))
           = Finite (of_int (10 + \<lfloor>of_int a / 100 * 5 :: rat\<rfloor>))
       \<and> creditsEarned (JNumber (Finite (of_int b)))
           = Finite (of_int (10 + \<lfloor>of_int b / 100 * 5 :: rat\<rfloor>))
       \<and> 10 + \<lfloor>of_int a / 100 * 5 :: rat\<rfloor> \<le> 10 + \<lfloor>of_int b / 100 * 5 :: rat\<rfloor>
       \<and> 10 \<le> 10 + \<lfloor>of_int a / 100 * 5 :: rat\<rfloor>
       \<and> 10 + \<lfloor>of_int b / 100 * 5 :: rat\<rfloor> \<le> 15"
proof -
  have ab: "(of_int a :: rat) / 100 * 5 \<le> of_int b / 100 * 5"
    using assms by simp
  have mono: "\<lfloor>of_int a / 100 * 5 :: rat\<rfloor> \<le> \<lfloor>of_int b / 100 * 5 :: rat\<rfloor>"
    by (rule floor_mono) (rule ab)
  have "0 \<le> (of_int a :: rat)" and "(of_int a :: rat) < 120"
    and "0 \<le> (of_int b :: rat)" and "(of_int b :: rat) < 120"
    using assms by simp_all
  then have lo: "10 \<le> 10 + \<lfloor>of_int a / 100 * 5 :: rat\<rfloor>"
    and hi: "10 + \<lfloor>of_int b / 100 * 5 :: rat\<rfloor> \<le> 15"
    using bonus_range [of "of_int a"] bonus_range [of "of_int b"] by blast+
  show ?thesis using mono lo hi by (simp only: creditsEarned_number simp_thms)
qed

theorem creditsEarned_monotone_in_range_witness:
  "creditsEarned (JNumber (Finite 20)) = Finite 11
   \<and> creditsEarned (JNumber (Finite 80)) = Finite 14"
  using creditsEarned_monotone_in_range [of 20 80] by simp




section \<open>Responses of the model endpoint that are no success\<close>

text \<open>
  Claim C1, as the code has it. When the model endpoint answers 429 or 402, the handler
  answers with the same status and with a message of its own, fixed for each of the two
  statuses, under \<^verbatim>\<open>error\<close>; the body of the endpoint's answer is not read.
\<close>

theorem rate_limit_fixed_message:
  assumes "req_method req \<noteq> ''OPTIONS''"
    and "image_of req = Inr imageBase64" and "ToBoolean imageBase64"
    and "env ''LOVABLE_API_KEY'' = Some key" and "key \<noteq> []"
    and "fetch (model_request key imageBase64) = Resolved r"
    and "up_status r = 429 \<or> up_status r = 402"
  shows "handler env fetch req =
           (\<lparr>status = up_status r, headers = json_headers,
             body = error_object
               (if up_status r = 429 then ''Rate limit exceeded. Please try again later.''
                else ''AI credits depleted. Please add credits to continue.'')\<rparr>,
            [model_request key imageBase64])"
proof -
  have "relayed r =
          Inr \<lparr>status = up_status r, headers = json_headers,
               body = error_object
                 (if up_status r = 429 then ''Rate limit exceeded. Please try again later.''
                  else ''AI credits depleted. Please add credits to continue.'')\<rparr>"
    using assms(7) by (auto simp: relayed_def ok_def)
  then show ?thesis
    using handler_calls_model [where env = env and fetch = fetch, OF assms(1-6)] by simp
qed

theorem rate_limit_fixed_message_witness:
  "handler configured (replying throttled) photo =
     (\<lparr>status = 429, headers = json_headers,
       body = error_object ''Rate limit exceeded. Please try again later.''\<rparr>,
      [model_request ''secret'' (JString ''data:image/png;base64,iVBORw0KGgo='')])"
proof -
  have s: "up_status throttled = 429 \<or> up_status throttled = 402"
    by (simp add: throttled_def)
  show ?thesis
    using rate_limit_fixed_message [where env = configured and fetch = "replying throttled",
        OF photo_method photo_image photo_truthy configured_key secret_not_empty
          replying_resolved s]
    by (simp add: throttled_def)
qed

text \<open>
  The claim as the specification words it fails: the endpoint's own message does not reach
  the caller.
\<close>

theorem upstream_message_not_passed_through:
  \<open>up_body throttled = ''{"error":"slow down"}''
   \<and> body (fst (handler configured (replying throttled) photo))
       = error_object ''Rate limit exceeded. Please try again later.''
   \<and> body (fst (handler configured (replying throttled) photo)) \<noteq> error_object ''slow down''
   \<and> body (fst (handler configured (replying throttled) photo))
       \<noteq> error_object (up_body throttled)\<close>
  by code_simp

section \<open>The answer in a code fence\<close>

lemma fenced_answer_cleaned:
  \<open>cleaned ''```json\<newline>{"category":"organic","confidence":80,"reasoning":"x"}\<newline>```''
     = ''{"category":"organic","confidence":80,"reasoning":"x"}''\<close>
  by code_simp

lemma fenced_answer_parsed:
  \<open>JSON_parse ''{"category":"organic","confidence":80,"reasoning":"x"}''
     = Some (JObject [(''category'', JString ''organic''),
                      (''confidence'', JNumber (Finite 80)),
                      (''reasoning'', JString ''x'')])\<close>
  by code_simp

lemma fenced_answer_classified:
  "classified (JObject [(''category'', JString ''organic''),
                        (''confidence'', JNumber (Finite 80)),
                        (''reasoning'', JString ''x'')])
     = Inr \<lparr>status = 200, headers = json_headers,
            body = Json (JObject
              [(''category'', JString ''organic''), (''confidence'', JNumber (Finite 80)),
               (''reasoning'', JString ''x''), (''creditsEarned'', JNumber (Finite 14))])\<rparr>"
  by code_simp

text \<open>
  Claim C3. When the text of the model is the JSON object
  \<^verbatim>\<open>{"category":"organic","confidence":80,"reasoning":"x"}\<close> inside a \<^verbatim>\<open>```json\<close> fence, with a
  newline behind the opening fence and one before the closing fence, the handler strips the
  fence, parses the object and answers 200 with category \<^verbatim>\<open>organic\<close>, confidence 80,
  reasoning \<^verbatim>\<open>x\<close> and 14 credits, after one call of the model.
\<close>

theorem fenced_answer_response:
  assumes "req_method req \<noteq> ''OPTIONS''"
    and "image_of req = Inr imageBase64" and "ToBoolean imageBase64"
    and "env ''LOVABLE_API_KEY'' = Some key" and "key \<noteq> []"
    and "fetch (model_request key imageBase64) = Resolved r" and "ok r"
    and "JSON_parse (up_body r) = Some data"
    and \<open>content_of data = Inr (JString
           ''```json\<newline>{"category":"organic","confidence":80,"reasoning":"x"}\<newline>```'')\<close>
  shows \<open>cleaned ''```json\<newline>{"category":"organic","confidence":80,"reasoning":"x"}\<newline>```''
            = ''{"category":"organic","confidence":80,"reasoning":"x"}''
         \<and> JSON_parse ''{"category":"organic","confidence":80,"reasoning":"x"}''
            = Some (JObject [(''category'', JString ''organic''),
                             (''confidence'', JNumber (Finite 80)),
                             (''reasoning'', JString ''x'')])
         \<and> handler env fetch req =
             (\<lparr>status = 200, headers = json_headers,
               body = Json (JObject
                 [(''category'', JString ''organic''), (''confidence'', JNumber (Finite 80)),
                  (''reasoning'', JString ''x''), (''creditsEarned'', JNumber (Finite 14))])\<rparr>,
              [model_request key imageBase64])\<close>
proof -
  have "relayed r =
          Inr \<lparr>status = 200, headers = json_headers,
               body = Json (JObject
                 [(''category'', JString ''organic''), (''confidence'', JNumber (Finite 80)),
                  (''reasoning'', JString ''x''), (''creditsEarned'', JNumber (Finite 14))])\<rparr>"
    using assms(7-9)
    by (simp add: relayed_def answered_def fenced_answer_cleaned fenced_answer_parsed
        fenced_answer_classified)
  then show ?thesis
    using handler_calls_model [where env = env and fetch = fetch, OF assms(1-6)]
    by (simp add: fenced_answer_cleaned fenced_answer_parsed)
qed

theorem fenced_answer_response_witness:
  "handler configured (replying (completion fenced_answer)) photo =
     (\<lparr>status = 200, headers = json_headers,
       body = Json (JObject
         [(''category'', JString ''organic''), (''confidence'', JNumber (Finite 80)),
          (''reasoning'', JString ''x''), (''creditsEarned'', JNumber (Finite 14))])\<rparr>,
      [model_request ''secret'' (JString ''data:image/png;base64,iVBORw0KGgo='')])"
proof -
  from fenced_completion_content obtain data
    where p: "JSON_parse (up_body (completion fenced_answer)) = Some data"
      and c: \<open>content_of data = Inr (JString
         ''```json\<newline>{"category":"organic","confidence":80,"reasoning":"x"}\<newline>```'')\<close>
    by auto
  show ?thesis
    using fenced_answer_response
      [where env = configured and fetch = "replying (completion fenced_answer)",
        OF photo_method photo_image photo_truthy configured_key secret_not_empty
          replying_resolved completion_ok p c]
    by simp
qed

section \<open>A category outside the four\<close>

text \<open>
  Claim C4. When the parsed answer of the model has, under \<^verbatim>\<open>category\<close>, anything but one of
  the strings \<^verbatim>\<open>recyclable\<close>, \<^verbatim>\<open>organic\<close>, \<^verbatim>\<open>hazardous\<close>, \<^verbatim>\<open>general\<close> (another string, the same
  word in another case, \<^verbatim>\<open>null\<close>, a value of another type, or nothing), the handler answers
  500 with the message \<^verbatim>\<open>Invalid category returned by AI\<close>; it puts no other category in
  its place. The answer itself is any JSON value whose \<^verbatim>\<open>category\<close> can be read, that is any
  but \<^verbatim>\<open>null\<close>.
\<close>

theorem invalid_category_rejected:
  assumes "req_method req \<noteq> ''OPTIONS''"
    and "image_of req = Inr imageBase64" and "ToBoolean imageBase64"
    and "env ''LOVABLE_API_KEY'' = Some key" and "key \<noteq> []"
    and "fetch (model_request key imageBase64) = Resolved r" and "ok r"
    and "JSON_parse (up_body r) = Some data"
    and "content_of data = Inr (JString aiResponse)"
    and "JSON_parse (cleaned aiResponse) = Some classification"
    and "get_property classification ''category'' = Inr category"
    and "category \<notin> {JString ''recyclable'', JString ''organic'',
                       JString ''hazardous'', JString ''general''}"
  shows "handler env fetch req =
           (\<lparr>status = 500, headers = json_headers,
             body = error_object ''Invalid category returned by AI''\<rparr>,
            [model_request key imageBase64])"
proof -
  have "\<not> Array_includes validCategories category"
    using assms(12) by (cases category) (auto simp: Array_includes_def validCategories_def)
  then have "classified classification = Inl (Error ''Invalid category returned by AI'')"
    using assms(11) by (simp add: classified_def)
  then have "relayed r = Inl (Error ''Invalid category returned by AI'')"
    using assms(7-10) by (simp add: relayed_def answered_def)
  then show ?thesis
    using handler_calls_model [where env = env and fetch = fetch, OF assms(1-6)]
    by (simp add: caught_def)
qed

theorem invalid_category_rejected_witness:
  "fst (handler configured (replying (completion plastic_answer)) photo) =
     \<lparr>status = 500, headers = json_headers,
      body = error_object ''Invalid category returned by AI''\<rparr>
   \<and> fst (handler configured (replying (completion miscased_answer)) photo) =
     \<lparr>status = 500, headers = json_headers,
      body = error_object ''Invalid category returned by AI''\<rparr>
   \<and> fst (handler configured (replying (completion null_category_answer)) photo) =
     \<lparr>status = 500, headers = json_headers,
      body = error_object ''Invalid category returned by AI''\<rparr>"
proof -
  from plastic_content obtain d1
    where p1: "JSON_parse (up_body (completion plastic_answer)) = Some d1"
      and c1: "content_of d1 = Inr (JString plastic_answer)"
    by auto
  have g1: "get_property (JObject [(''category'', JString ''plastic''),
                      (''confidence'', JNumber (Finite 90)),
                      (''reasoning'', JString ''a bottle'')]) ''category''
              = Inr (JString ''plastic'')"
    by (simp add: get_property_def)
  have n1: "JString ''plastic'' \<notin> {JString ''recyclable'', JString ''organic'',
                       JString ''hazardous'', JString ''general''}"
    by simp
  from miscased_content obtain d2
    where p2: "JSON_parse (up_body (completion miscased_answer)) = Some d2"
      and c2: "content_of d2 = Inr (JString miscased_answer)"
    by auto
  have g2: "get_property (JObject [(''category'', JString ''Organic''),
                      (''confidence'', JNumber (Finite 90)),
                      (''reasoning'', JString ''peel'')]) ''category''
              = Inr (JString ''Organic'')"
    by (simp add: get_property_def)
  have n2: "JString ''Organic'' \<notin> {JString ''recyclable'', JString ''organic'',
                       JString ''hazardous'', JString ''general''}"
    by simp
  from null_category_content obtain d3
    where p3: "JSON_parse (up_body (completion null_category_answer)) = Some d3"
      and c3: "content_of d3 = Inr (JString null_category_answer)"
    by auto
  have g3: "get_property (JObject [(''category'', JNull),
                      (''confidence'', JNumber (Finite 90)),
                      (''reasoning'', JString ''unclear'')]) ''category'' = Inr JNull"
    by (simp add: get_property_def)
  have n3: "JNull \<notin> {JString ''recyclable'', JString ''organic'',
                       JString ''hazardous'', JString ''general''}"
    by simp
  show ?thesis
    using invalid_category_rejected
      [where env = configured and fetch = "replying (completion plastic_answer)",
        OF photo_method photo_image photo_truthy configured_key secret_not_empty
          replying_resolved completion_ok p1 c1 plastic_parsed g1 n1]
      invalid_category_rejected
      [where env = configured and fetch = "replying (completion miscased_answer)",
        OF photo_method photo_image photo_truthy configured_key secret_not_empty
          replying_resolved completion_ok p2 c2 miscased_parsed g2 n2]
      invalid_category_rejected
      [where env = configured and fetch = "replying (completion null_category_answer)",
        OF photo_method photo_image photo_truthy configured_key secret_not_empty
          replying_resolved completion_ok p3 c3 null_category_parsed g3 n3]
    by simp
qed

section \<open>A request without an image\<close>

text \<open>
  Claim C5. When the body of the request has no \<^verbatim>\<open>imageBase64\<close>, or an empty one, the handler
  answers 500 with the message \<^verbatim>\<open>No image provided\<close> and has made no call of the model
  endpoint, whatever the environment and whatever \<^verbatim>\<open>fetch\<close> would answer.
\<close>

theorem missing_image_rejected:
  assumes "req_method req \<noteq> ''OPTIONS''"
    and "JSON_parse (req_body req) = Some parsed"
    and "get_property parsed ''imageBase64'' = Inr imageBase64"
    and "imageBase64 = JUndefined \<or> imageBase64 = JString []"
  shows "handler env fetch req =
           (\<lparr>status = 500, headers = json_headers,
             body = error_object ''No image provided''\<rparr>, [])"
proof -
  have "\<not> ToBoolean imageBase64"
    using assms(4) by (auto simp: ToBoolean_def)
  moreover have "image_of req = Inr imageBase64"
    using assms(2,3) by (simp add: image_of_def)
  ultimately show ?thesis
    using assms(1) by (simp add: handler_def try_block_def caught_def)
qed

theorem missing_image_rejected_witness:
  \<open>handler configured (replying (completion fenced_answer)) (post ''{"imageBase64":""}'') =
     (\<lparr>status = 500, headers = json_headers, body = error_object ''No image provided''\<rparr>, [])
   \<and> handler configured (replying (completion fenced_answer)) (post ''{}'') =
     (\<lparr>status = 500, headers = json_headers, body = error_object ''No image provided''\<rparr>, [])\<close>
proof -
  have m: "req_method (post s) \<noteq> ''OPTIONS''" for s
    by (simp add: post_def)
  have p1: \<open>JSON_parse (req_body (post ''{"imageBase64":""}''))
              = Some (JObject [(''imageBase64'', JString [])])\<close>
    by code_simp
  have g1: "get_property (JObject [(''imageBase64'', JString [])]) ''imageBase64''
              = Inr (JString [])"
    by (simp add: get_property_def)
  have p2: "JSON_parse (req_body (post ''{}'')) = Some (JObject [])"
    by code_simp
  have g2: "get_property (JObject []) ''imageBase64'' = Inr JUndefined"
    by (simp add: get_property_def)
  show ?thesis
    using missing_image_rejected
        [where env = configured and fetch = "replying (completion fenced_answer)",
          OF m p1 g1]
      missing_image_rejected
        [where env = configured and fetch = "replying (completion fenced_answer)",
          OF m p2 g2]
    by simp
qed

section \<open>A missing key\<close>





section \<open>The headers of every response\<close>

text \<open>
  Claim C10. Every response of the handler (the preflight, the success, the two relayed
  statuses and the caught errors) carries the two CORS headers: any origin, and the allowed
  headers \<^verbatim>\<open>authorization, x-client-info, apikey, content-type\<close>.
\<close>

theorem cors_headers_on_every_response:
  "set corsHeaders \<subseteq> set (headers (fst (handler env fetch req)))
   \<and> map_of (headers (fst (handler env fetch req))) ''Access-Control-Allow-Origin'' = Some ''*''
   \<and> map_of (headers (fst (handler env fetch req))) ''Access-Control-Allow-Headers''
       = Some ''authorization, x-client-info, apikey, content-type''"
  by (simp add: handler_headers json_headers_def corsHeaders_def)

section \<open>The one-time code\<close>

text \<open>
  Claim C8, as the code has it. A code whose length is not 6 is refused by the page itself
  with the message \<^verbatim>\<open>Please enter a 6-digit code\<close>, and the identity provider is not called.
  The handler looks at the length alone.
\<close>

theorem short_code_rejected_locally:
  assumes "length (otp st) \<noteq> 6"
  shows "handleVerifyOTP provider st =
           (st\<lparr>loading := False\<rparr>,
            [\<lparr>title = ''Error'', description = ''Please enter a 6-digit code'',
              variant = Some ''destructive''\<rparr>],
            [])"
  using assms by (simp add: handleVerifyOTP_def)

theorem short_code_rejected_locally_witness:
  "handleVerifyOTP accepting five_digits =
     (five_digits\<lparr>loading := False\<rparr>,
      [\<lparr>title = ''Error'', description = ''Please enter a 6-digit code'',
        variant = Some ''destructive''\<rparr>],
      [])"
proof -
  have "length (otp five_digits) \<noteq> 6"
    by (simp add: five_digits_def code_request_def)
  then show ?thesis
    by (rule short_code_rejected_locally)
qed

text \<open>
  The claim as the specification words it fails: six letters are no six digits, and they are
  sent to the provider.
\<close>

theorem six_letters_reach_provider:
  "otp six_letters = ''abcdef''
   \<and> handleVerifyOTP accepting six_letters =
     (six_letters\<lparr>loading := False\<rparr>,
      [\<lparr>title = ''Success!'', description = ''Successfully authenticated'',
        variant = None\<rparr>],
      [VerifyOtp ''ada@example.org'' ''abcdef'' ''email''])"
  by code_simp

text \<open>
  Claim C9. From the state in which no code has been sent, \<^verbatim>\<open>handleSendOTP\<close> sets \<^verbatim>\<open>otpSent\<close>
  exactly when the address passes the validation and the provider answers without an error.
  Otherwise the state is the one before (with \<^verbatim>\<open>loading\<close> reset), and one toast of the
  destructive kind tells the user: the first issue of the validation, or \<^verbatim>\<open>Failed to send code\<close>
  when the provider has refused.
\<close>

theorem code_entry_only_on_success:
  assumes "\<not> otpSent st"
  shows "(otpSent (fst (handleSendOTP origin is_email provider st)) \<longleftrightarrow>
            emailSchema_parse is_email (trim (email st)) = []
          \<and> provider (SignInWithOtp (trim (email st)) (origin @ ''/demo'')) = Succeeded)
       \<and> (\<not> otpSent (fst (handleSendOTP origin is_email provider st)) \<longrightarrow>
            fst (handleSendOTP origin is_email provider st) = st\<lparr>loading := False\<rparr>
          \<and> fst (snd (handleSendOTP origin is_email provider st)) =
              [case emailSchema_parse is_email (trim (email st)) of
                 issue # _ \<Rightarrow>
                   \<lparr>title = ''Validation error'', description = issue,
                    variant = Some ''destructive''\<rparr>
               | [] \<Rightarrow>
                   \<lparr>title = ''Error'', description = ''Failed to send code'',
                    variant = Some ''destructive''\<rparr>])"
  using assms
  by (auto simp: handleSendOTP_def Let_def split: list.splits auth_result.splits)

theorem code_entry_only_on_success_witness:
  "otpSent (fst (handleSendOTP ''https://ecosnap.example'' has_at accepting code_request))
   \<and> \<not> otpSent (fst (handleSendOTP ''https://ecosnap.example'' has_at refusing code_request))
   \<and> fst (handleSendOTP ''https://ecosnap.example'' has_at refusing code_request)
       = code_request\<lparr>loading := False\<rparr>"
proof -
  have n: "\<not> otpSent code_request"
    by (simp add: code_request_def)
  have v: "emailSchema_parse has_at (trim (email code_request)) = []"
    by code_simp
  have a: "accepting (SignInWithOtp (trim (email code_request))
             (''https://ecosnap.example'' @ ''/demo'')) = Succeeded"
    by (simp add: accepting_def)
  have r: "refusing (SignInWithOtp (trim (email code_request))
             (''https://ecosnap.example'' @ ''/demo'')) \<noteq> Succeeded"
    by (simp add: refusing_def)
  show ?thesis
    using code_entry_only_on_success
        [OF n, where origin = "''https://ecosnap.example''" and is_email = has_at
           and provider = accepting]
      code_entry_only_on_success
        [OF n, where origin = "''https://ecosnap.example''" and is_email = has_at
           and provider = refusing]
      v a r
    by simp
qed

end
